theory Spec2Isabelle
  imports Main
begin

section \<open>mirror2s3: the data model\<close>

text \<open>
  The package has one source file, \<^verbatim>\<open>mirror2s3.go\<close>. Its operation \<^verbatim>\<open>Run\<close>
  lists a bucket, reads a tar archive produced by \<^verbatim>\<open>git archive\<close> and writes the
  entries whose MD5 differs from the listed one. Byte slices and Go strings are
  both sequences of bytes, modelled as \<open>char list\<close> (an Isabelle \<open>char\<close> is one byte).
\<close>

type_synonym bytes = "char list"

text \<open>\<^verbatim>\<open>var IgnoredFiles = map[string]struct{}{".gitignore": struct{}{}}\<close>: a set of strings.\<close>

definition IgnoredFiles :: "string set" where
  "IgnoredFiles = {''.gitignore''}"

text \<open>\<^verbatim>\<open>type Mirror struct\<close> and its functional options.\<close>

record Mirror =
  gitPath :: string
  siteSourcePath :: string
  awsProfile :: string
  awsRegion :: string
  bucketURL :: string

definition New :: "(Mirror \<Rightarrow> Mirror) list \<Rightarrow> Mirror" where
  "New options =
     foldl (\<lambda>m opt. opt m)
       \<lparr>gitPath = ''/usr/bin/git'', siteSourcePath = [], awsProfile = [],
        awsRegion = [], bucketURL = []\<rparr> options"

definition WithGitRepoRoot :: "string \<Rightarrow> Mirror \<Rightarrow> Mirror" where
  "WithGitRepoRoot path m = m\<lparr>siteSourcePath := path\<rparr>"

definition WithAwsProfile :: "string \<Rightarrow> Mirror \<Rightarrow> Mirror" where
  "WithAwsProfile name m = m\<lparr>awsProfile := name\<rparr>"

definition WithAwsRegion :: "string \<Rightarrow> Mirror \<Rightarrow> Mirror" where
  "WithAwsRegion name m = m\<lparr>awsRegion := name\<rparr>"

definition WithBucketURL :: "string \<Rightarrow> Mirror \<Rightarrow> Mirror" where
  "WithBucketURL url m = m\<lparr>bucketURL := url\<rparr>"

subsection \<open>The libraries and services \<^verbatim>\<open>Run\<close> calls\<close>

text \<open>
  \<^verbatim>\<open>tar.Header\<close>, restricted to the two fields the code reads. \<^verbatim>\<open>tar.TypeReg\<close> is the
  byte \<^verbatim>\<open>'0'\<close>.
\<close>

record Header =
  Name :: string
  Typeflag :: char

definition TypeReg :: char where
  "TypeReg = CHR ''0''"

definition TypeDir :: char where
  "TypeDir = CHR ''5''"

text \<open>
  What the \<^verbatim>\<open>tar.Reader\<close> delivers, one element per call of \<^verbatim>\<open>r.Next()\<close>: an error, or
  a header together with what \<^verbatim>\<open>ioutil.ReadAll(r)\<close> would return for that entry (an
  error message or the entry's bytes). The end of the list is \<^verbatim>\<open>io.EOF\<close>.
\<close>

datatype tar_event = NextError string | NextHeader Header "string + bytes"

text \<open>
  \<^verbatim>\<open>blob.ListObject\<close>, restricted to \<^verbatim>\<open>Key\<close> and \<^verbatim>\<open>MD5\<close>; a nil \<^verbatim>\<open>MD5\<close> slice is \<open>None\<close>.
  The iterator delivers one element per call of \<^verbatim>\<open>itr.Next(ctx)\<close>; the end of the
  list is \<^verbatim>\<open>io.EOF\<close>.
\<close>

record ListObject =
  Key :: string
  MD5 :: "bytes option"

datatype list_event = ListError string | ListItem ListObject

record WriterOptions =
  ContentType :: string

text \<open>\<^verbatim>\<open>exec.Cmd\<close> as \<^verbatim>\<open>getSiteTar\<close> fills it (\<^verbatim>\<open>Stderr\<close> is passed through).\<close>

record Cmd =
  Path :: string
  Args :: "string list"
  Env :: "string list"
  Dir :: string

text \<open>
  The functions of the Go standard library whose result the code branches on:
  \<^verbatim>\<open>md5.Sum\<close> and \<^verbatim>\<open>mime.TypeByExtension\<close> (the latter consults the host's MIME
  tables). Both are parameters of the model.
\<close>

record stdlib =
  md5_Sum :: "bytes \<Rightarrow> bytes"
  TypeByExtension :: "string \<Rightarrow> string"

text \<open>
  The world outside the process: for each external call, the error it returns (if any)
  and the data it delivers. \<open>stored\<close> is the content of the bucket when the run starts,
  key by key the bytes and the writer options of the last write. The listing is a
  separate field: nothing in the code ties what \<^verbatim>\<open>bucket.List\<close> reports to what the
  bucket holds. \<open>WriteAll_err\<close> is the error \<^verbatim>\<open>bucket.WriteAll\<close> returns for a key and its
  bytes. The \<^verbatim>\<open>context.Context\<close> of \<^verbatim>\<open>Run\<close> is only handed on to these calls, so a
  cancelled context appears here as their errors. Both iterators are finite lists: the
  listing of a bucket and the archive of a revision end.
\<close>

record world =
  environ0 :: "string \<rightharpoonup> string"
  OpenBucket_err :: "string \<Rightarrow> string option"
  listing :: "list_event list"
  stored :: "string \<rightharpoonup> bytes \<times> WriterOptions option"
  WriteAll_err :: "string \<Rightarrow> bytes \<Rightarrow> string option"
  StdoutPipe_err :: "Cmd \<Rightarrow> string option"
  Start_err :: "Cmd \<Rightarrow> string option"
  stdout :: "Cmd \<Rightarrow> tar_event list"

subsection \<open>The state of a run\<close>

text \<open>
  Every effect of \<^verbatim>\<open>Run\<close> is recorded: the process environment, the bucket handle,
  the bucket's objects, and the sequence of reads, checksum computations, log lines and
  \<^verbatim>\<open>WriteAll\<close> calls in the order they happen.
\<close>

datatype event =
    EvReadAll string
  | EvMD5 bytes
  | EvLog string
  | EvWriteAll string bytes "WriterOptions option"

datatype handle_status = NotOpened | Opened | Closed

record state =
  environ :: "string \<rightharpoonup> string"
  handle :: handle_status
  objects :: "string \<rightharpoonup> bytes \<times> WriterOptions option"
  trace :: "event list"

text \<open>
  How \<^verbatim>\<open>Run\<close> ends: it returns an \<^verbatim>\<open>error\<close> (\<open>None\<close> is nil, otherwise the message), or
  the process exits (\<^verbatim>\<open>log.Fatal\<close> calls \<^verbatim>\<open>os.Exit(1)\<close>, and deferred calls do not run).
\<close>

datatype outcome = Returned "string option" | Exited nat

definition emit :: "event \<Rightarrow> state \<Rightarrow> state" where
  "emit e s = s\<lparr>trace := trace s @ [e]\<rparr>"

section \<open>The operations\<close>

text \<open>
  \<^verbatim>\<open>path.Ext\<close>: the suffix beginning at the final dot in the final slash-separated
  element of the path, empty if there is no dot. The Go loop scans from the end;
  \<open>ext_scan\<close> walks the reversed path and keeps the characters passed so far.
\<close>

fun ext_scan :: "string \<Rightarrow> string \<Rightarrow> string" where
  "ext_scan [] acc = []"
| "ext_scan (c # cs) acc =
     (if c = CHR ''/'' then []
      else if c = CHR ''.'' then c # acc
      else ext_scan cs (c # acc))"

definition path_Ext :: "string \<Rightarrow> string" where
  "path_Ext p = ext_scan (rev p) []"

text \<open>Lines 132 to 135: the writer options stay nil unless the extension is recognised.\<close>

definition writer_options :: "stdlib \<Rightarrow> string \<Rightarrow> WriterOptions option" where
  "writer_options L name =
     (let contentType = TypeByExtension L (path_Ext name)
      in if contentType \<noteq> [] then Some \<lparr>ContentType = contentType\<rparr> else None)"

text \<open>Lines 81 to 94: the listing loop. \<open>Inl\<close> is the error handed to \<^verbatim>\<open>log.Fatal\<close>.\<close>

fun list_loop :: "list_event list \<Rightarrow> (string \<rightharpoonup> bytes) \<Rightarrow> string + (string \<rightharpoonup> bytes)" where
  "list_loop [] hashes = Inr hashes"
| "list_loop (ListError err # itr) hashes = Inl err"
| "list_loop (ListItem obj # itr) hashes =
     list_loop itr
       (case MD5 obj of Some remoteSum \<Rightarrow> hashes(Key obj \<mapsto> remoteSum) | None \<Rightarrow> hashes)"

text \<open>\<^verbatim>\<open>getSiteTar\<close>, lines 144 to 161.\<close>

definition git_cmd :: "Mirror \<Rightarrow> Cmd" where
  "git_cmd m =
     \<lparr>Path = gitPath m, Args = [gitPath m, ''archive'', ''--format=tar'', ''HEAD''],
      Env = [], Dir = siteSourcePath m\<rparr>"

definition getSiteTar :: "Mirror \<Rightarrow> world \<Rightarrow> string + tar_event list" where
  "getSiteTar m w =
     (let cmd = git_cmd m in
      case StdoutPipe_err w cmd of
        Some err \<Rightarrow> Inl (''get git stdout: '' @ err)
      | None \<Rightarrow>
          (case Start_err w cmd of
             Some err \<Rightarrow> Inl (''start git: '' @ err)
           | None \<Rightarrow> Inr (stdout w cmd)))"

text \<open>The three bytes of the UTF-8 ellipsis that ends both log lines.\<close>

definition ellipsis :: string where
  "ellipsis = [CHR 0xE2, CHR 0x80, CHR 0xA6]"

text \<open>
  Lines 110 to 138: the body of the archive loop for one header. The first component
  is the error the body returns with; \<open>None\<close> means the loop goes on (by \<^verbatim>\<open>continue\<close> or
  by reaching the end of the body). The checksum is computed only when the index holds
  the key. A successful \<^verbatim>\<open>WriteAll\<close> stores the object; a failed one leaves the bucket
  as it was.
\<close>

definition tar_entry ::
  "stdlib \<Rightarrow> world \<Rightarrow> (string \<rightharpoonup> bytes) \<Rightarrow> Header \<Rightarrow> string + bytes \<Rightarrow> state
     \<Rightarrow> string option \<times> state" where
  "tar_entry L w hashes header content s =
     (if Typeflag header \<noteq> TypeReg then (None, s)
      else if Name header \<in> IgnoredFiles then (None, s)
      else
        let s1 = emit (EvReadAll (Name header)) s in
        case content of
          Inl err \<Rightarrow>
            (Some (''read file '' @ [CHR 0x22] @ Name header @ [CHR 0x22] @ '': '' @ err), s1)
        | Inr data \<Rightarrow>
            let (skip, s2) =
              (case hashes (Name header) of
                 Some remoteSum \<Rightarrow> (md5_Sum L data = remoteSum, emit (EvMD5 data) s1)
               | None \<Rightarrow> (False, s1))
            in
            if skip then (None, emit (EvLog (''skipping '' @ Name header @ ellipsis)) s2)
            else
              let s3 = emit (EvLog (''uploading '' @ Name header @ ellipsis)) s2;
                  options = writer_options L (Name header);
                  s4 = emit (EvWriteAll (Name header) data options) s3
              in
              (case WriteAll_err w (Name header) data of
                 Some err \<Rightarrow> (Some (''upload file: '' @ err), s4)
               | None \<Rightarrow>
                   (None, s4\<lparr>objects := (objects s4)(Name header \<mapsto> (data, options))\<rparr>)))"

text \<open>Lines 101 to 139: the archive loop.\<close>

fun tar_loop ::
  "stdlib \<Rightarrow> world \<Rightarrow> (string \<rightharpoonup> bytes) \<Rightarrow> tar_event list \<Rightarrow> state \<Rightarrow> string option \<times> state" where
  "tar_loop L w hashes [] s = (None, s)"
| "tar_loop L w hashes (NextError err # r) s = (Some (''get next file in tar: '' @ err), s)"
| "tar_loop L w hashes (NextHeader header content # r) s =
     (case tar_entry L w hashes header content s of
        (Some err, s') \<Rightarrow> (Some err, s')
      | (None, s') \<Rightarrow> tar_loop L w hashes r s')"

text \<open>Lines 72 and 73: the process as \<^verbatim>\<open>Run\<close> leaves it after the two \<^verbatim>\<open>os.Setenv\<close> calls.\<close>

definition setenv_state :: "Mirror \<Rightarrow> world \<Rightarrow> state" where
  "setenv_state m w =
     \<lparr>environ = (environ0 w)(''AWS_REGION'' \<mapsto> awsRegion m, ''AWS_PROFILE'' \<mapsto> awsProfile m),
      handle = NotOpened, objects = stored w, trace = []\<rparr>"

text \<open>
  \<^verbatim>\<open>Run\<close>, lines 71 to 142. The deferred \<^verbatim>\<open>bucket.Close()\<close> runs on every return after
  the bucket was opened, and not when \<^verbatim>\<open>log.Fatal\<close> ends the process.
\<close>

definition Run :: "stdlib \<Rightarrow> Mirror \<Rightarrow> world \<Rightarrow> outcome \<times> state" where
  "Run L m w =
     (let s0 = setenv_state m w in
      case OpenBucket_err w (bucketURL m) of
        Some err \<Rightarrow> (Returned (Some (''open bucket: '' @ err)), s0)
      | None \<Rightarrow>
          let s1 = s0\<lparr>handle := Opened\<rparr> in
          (case list_loop (listing w) Map.empty of
             Inl err \<Rightarrow> (Exited 1, emit (EvLog err) s1)
           | Inr hashes \<Rightarrow>
               let (res, s2) =
                 (case getSiteTar m w of
                    Inl err \<Rightarrow> (Some (''get site tar: '' @ err), s1)
                  | Inr r \<Rightarrow> tar_loop L w hashes r s1)
               in (Returned res, s2\<lparr>handle := Closed\<rparr>)))"

section \<open>Observations on a run\<close>

text \<open>
  What the claims observe of a run: which events of the trace are \<^verbatim>\<open>WriteAll\<close> calls,
  and under which key.
\<close>

fun is_write :: "event \<Rightarrow> bool" where
  "is_write (EvWriteAll k d opts) = True"
| "is_write _ = False"

fun is_write_to :: "string \<Rightarrow> event \<Rightarrow> bool" where
  "is_write_to k (EvWriteAll k' d opts) = (k' = k)"
| "is_write_to k _ = False"

text \<open>The names of the entries of an archive, in archive order.\<close>

fun tar_names :: "tar_event list \<Rightarrow> string list" where
  "tar_names [] = []"
| "tar_names (NextError err # r) = tar_names r"
| "tar_names (NextHeader header content # r) = Name header # tar_names r"

text \<open>
  The condition under which the loop body reaches \<^verbatim>\<open>WriteAll\<close> for an entry whose content
  was read: regular, not ignored, and no equal checksum in the index.
\<close>

definition wants_upload :: "stdlib \<Rightarrow> (string \<rightharpoonup> bytes) \<Rightarrow> Header \<Rightarrow> bytes \<Rightarrow> bool" where
  "wants_upload L hashes header data \<longleftrightarrow>
     Typeflag header = TypeReg \<and> Name header \<notin> IgnoredFiles \<and>
     hashes (Name header) \<noteq> Some (md5_Sum L data)"

text \<open>The \<^verbatim>\<open>WriteAll\<close> calls one archive event gives rise to, and those of a whole archive.\<close>

fun entry_writes :: "stdlib \<Rightarrow> (string \<rightharpoonup> bytes) \<Rightarrow> tar_event \<Rightarrow> event list" where
  "entry_writes L hashes (NextError err) = []"
| "entry_writes L hashes (NextHeader header (Inl err)) = []"
| "entry_writes L hashes (NextHeader header (Inr data)) =
     (if wants_upload L hashes header data
      then [EvWriteAll (Name header) data (writer_options L (Name header))] else [])"

definition expected_writes :: "stdlib \<Rightarrow> (string \<rightharpoonup> bytes) \<Rightarrow> tar_event list \<Rightarrow> event list" where
  "expected_writes L hashes r = concat (map (entry_writes L hashes) r)"

text \<open>The error the listing iterator ends with, if it does: the first one it delivers.\<close>

fun first_list_error :: "list_event list \<Rightarrow> string option" where
  "first_list_error [] = None"
| "first_list_error (ListError err # itr) = Some err"
| "first_list_error (ListItem obj # itr) = first_list_error itr"

text \<open>
  The error an archive event ends the run with, stage prefix included: \<^verbatim>\<open>r.Next()\<close> fails,
  the content of a regular, non-ignored entry cannot be read, or the bucket refuses the
  write of an entry that is due for upload.
\<close>

fun event_error :: "stdlib \<Rightarrow> world \<Rightarrow> (string \<rightharpoonup> bytes) \<Rightarrow> tar_event \<Rightarrow> string option" where
  "event_error L w hashes (NextError err) = Some (''get next file in tar: '' @ err)"
| "event_error L w hashes (NextHeader header (Inl err)) =
     (if Typeflag header = TypeReg \<and> Name header \<notin> IgnoredFiles
      then Some (''read file '' @ [CHR 0x22] @ Name header @ [CHR 0x22] @ '': '' @ err)
      else None)"
| "event_error L w hashes (NextHeader header (Inr data)) =
     (if wants_upload L hashes header data
      then map_option (\<lambda>err. ''upload file: '' @ err) (WriteAll_err w (Name header) data)
      else None)"

text \<open>The error of the first archive event that has one.\<close>

definition first_error ::
  "stdlib \<Rightarrow> world \<Rightarrow> (string \<rightharpoonup> bytes) \<Rightarrow> tar_event list \<Rightarrow> string option" where
  "first_error L w hashes r =
     (case List.map_filter (event_error L w hashes) r of [] \<Rightarrow> None | msg # rest \<Rightarrow> Some msg)"

text \<open>The archive up to and including the first event that has an error.\<close>

fun until_error ::
  "stdlib \<Rightarrow> world \<Rightarrow> (string \<rightharpoonup> bytes) \<Rightarrow> tar_event list \<Rightarrow> tar_event list" where
  "until_error L w hashes [] = []"
| "until_error L w hashes (ev # r) =
     (if event_error L w hashes ev = None then ev # until_error L w hashes r else [ev])"

text \<open>The state in which the listing loop and the archive loop start.\<close>

definition opened_state :: "Mirror \<Rightarrow> world \<Rightarrow> state" where
  "opened_state m w = (setenv_state m w)\<lparr>handle := Opened\<rparr>"

text \<open>The keys present locally: the entry names of the archive \<^verbatim>\<open>getSiteTar\<close> delivers.\<close>

definition local_names :: "Mirror \<Rightarrow> world \<Rightarrow> string set" where
  "local_names m w = (case getSiteTar m w of Inl err \<Rightarrow> {} | Inr r \<Rightarrow> set (tar_names r))"

section \<open>Example runs\<close>

text \<open>
  Concrete libraries and worlds at which the theorems are instantiated. \<open>example_md5\<close>
  is \<^verbatim>\<open>md5.Sum\<close> on the five contents used below (the digests are the real ones) and
  empty elsewhere; \<open>example_mime\<close> holds two rows of Go's built-in MIME table.
\<close>

definition md5_table :: "(bytes \<times> bytes) list" where
  "md5_table =
     [(''old'', [CHR 0x14, CHR 0x96, CHR 0x03, CHR 0xE6, CHR 0xC0, CHR 0x35, CHR 0x16, CHR 0x36,
                CHR 0x2A, CHR 0x8D, CHR 0xA2, CHR 0x3F, CHR 0x62, CHR 0x4D, CHR 0xB9, CHR 0x45]),
      (''new content'',
               [CHR 0x96, CHR 0xC1, CHR 0x5C, CHR 0x2B, CHR 0xB2, CHR 0x92, CHR 0x11, CHR 0x93,
                CHR 0xBF, CHR 0x29, CHR 0x0D, CHR 0xF8, CHR 0xCD, CHR 0x85, CHR 0xE2, CHR 0xBA]),
      (''hi'', [CHR 0x49, CHR 0xF6, CHR 0x8A, CHR 0x5C, CHR 0x84, CHR 0x93, CHR 0xEC, CHR 0x2C,
               CHR 0x0B, CHR 0xF4, CHR 0x89, CHR 0x82, CHR 0x1C, CHR 0x21, CHR 0xFC, CHR 0x3B]),
      (''same'', [CHR 0x51, CHR 0x03, CHR 0x7A, CHR 0x4A, CHR 0x37, CHR 0x73, CHR 0x0F, CHR 0x52,
                 CHR 0xC8, CHR 0x73, CHR 0x25, CHR 0x86, CHR 0xD3, CHR 0xAA, CHR 0xA3, CHR 0x16]),
      (''*.o'', [CHR 0xFE, CHR 0xFB, CHR 0x71, CHR 0x4B, CHR 0x6B, CHR 0xBE, CHR 0xDE, CHR 0x16,
                CHR 0x0E, CHR 0x97, CHR 0x94, CHR 0x76, CHR 0x86, CHR 0x39, CHR 0xFE, CHR 0x34])]"

definition example_md5 :: "bytes \<Rightarrow> bytes" where
  "example_md5 data = (case map_of md5_table data of Some digest \<Rightarrow> digest | None \<Rightarrow> [])"

definition example_mime :: "string \<Rightarrow> string" where
  "example_mime ext =
     (if ext = ''.css'' then ''text/css; charset=utf-8''
      else if ext = ''.html'' then ''text/html; charset=utf-8''
      else [])"

definition example_lib :: stdlib where
  "example_lib = \<lparr>md5_Sum = example_md5, TypeByExtension = example_mime\<rparr>"

definition example_mirror :: Mirror where
  "example_mirror =
     New [WithGitRepoRoot ''/srv/site'', WithAwsProfile ''example.com'',
          WithAwsRegion ''us-east-1'', WithBucketURL ''s3://example.com'']"

definition regular :: "string \<Rightarrow> bytes \<Rightarrow> tar_event" where
  "regular name data = NextHeader \<lparr>Name = name, Typeflag = TypeReg\<rparr> (Inr data)"

definition listed :: "string \<Rightarrow> bytes \<Rightarrow> list_event" where
  "listed key data = ListItem \<lparr>Key = key, MD5 = Some (example_md5 data)\<rparr>"

text \<open>A world in which no external call fails and the bucket is empty.\<close>

definition example_world :: "list_event list \<Rightarrow> tar_event list \<Rightarrow> world" where
  "example_world remote archive =
     \<lparr>environ0 = Map.empty, OpenBucket_err = (\<lambda>url. None), listing = remote,
      stored = Map.empty, WriteAll_err = (\<lambda>key data. None),
      StdoutPipe_err = (\<lambda>cmd. None), Start_err = (\<lambda>cmd. None), stdout = (\<lambda>cmd. archive)\<rparr>"

text \<open>
  One changed file, one new file and one unchanged file; and the same site once the
  listing reports what was written.
\<close>

definition changed_site :: world where
  "changed_site =
     example_world [listed ''index.html'' ''old'', listed ''a.txt'' ''same'']
       [regular ''index.html'' ''new content'', regular ''readme.md'' ''hi'',
        regular ''a.txt'' ''same'']"


text \<open>An archive with \<^verbatim>\<open>.gitignore\<close> at its root, against any listing.\<close>

definition ignored_site :: "list_event list \<Rightarrow> world" where
  "ignored_site remote =
     example_world remote [regular ''.gitignore'' ''*.o'', regular ''readme.md'' ''hi'']"

text \<open>An archive with a directory entry between two files.\<close>

definition directory_site :: world where
  "directory_site =
     example_world []
       [regular ''index.html'' ''new content'',
        NextHeader \<lparr>Name = ''docs/'', Typeflag = TypeDir\<rparr> (Inr []),
        regular ''readme.md'' ''hi'']"

text \<open>A bucket that stores \<^verbatim>\<open>readme.md\<close> with the local content but lists it without MD5.\<close>

definition unhashed_site :: world where
  "unhashed_site =
     (example_world [ListItem \<lparr>Key = ''readme.md'', MD5 = None\<rparr>] [regular ''readme.md'' ''hi''])
       \<lparr>stored := [''readme.md'' \<mapsto> (''hi'', None)]\<rparr>"

text \<open>A stylesheet and a file without extension.\<close>

definition styled_site :: world where
  "styled_site = example_world [] [regular ''style.css'' ''body { }'', regular ''LICENSE'' ''MIT'']"

text \<open>A listing that breaks after its first object.\<close>

definition unlistable_site :: world where
  "unlistable_site =
     example_world [listed ''a.txt'' ''same'', ListError ''connection reset'']
       [regular ''a.txt'' ''same'']"

text \<open>A bucket holding an object that the local tree no longer has.\<close>

definition stale_site :: world where
  "stale_site =
     (example_world [] [regular ''index.html'' ''new content''])
       \<lparr>stored := [''removed.html'' \<mapsto> (''old'', None)]\<rparr>"

text \<open>A \<^verbatim>\<open>.gitignore\<close> in a subdirectory next to the one at the root.\<close>

definition nested_site :: world where
  "nested_site =
     example_world [] [regular ''docs/.gitignore'' ''*.o'', regular ''.gitignore'' ''*.o'']"

text \<open>A bucket that does not open, and one that refuses every write.\<close>

definition unopenable_site :: world where
  "unopenable_site =
     (example_world [] [regular ''a.txt'' ''same''])
       \<lparr>OpenBucket_err := \<lambda>url. Some ''no such bucket''\<rparr>"

definition readonly_site :: world where
  "readonly_site =
     (example_world [] [regular ''a.txt'' ''same''])
       \<lparr>WriteAll_err := \<lambda>key data. Some ''access denied''\<rparr>"

text \<open>A git whose output pipe cannot be set up, and one that does not start.\<close>

definition pipeless_site :: world where
  "pipeless_site =
     (example_world [listed ''a.txt'' ''old''] [regular ''a.txt'' ''same''])
       \<lparr>StdoutPipe_err := \<lambda>cmd. Some ''exec: Stdout already set''\<rparr>"

definition gitless_site :: world where
  "gitless_site =
     (example_world [listed ''a.txt'' ''old''] [regular ''a.txt'' ''same''])
       \<lparr>Start_err := \<lambda>cmd. Some ''fork/exec /usr/bin/git: no such file or directory''\<rparr>"

text \<open>An archive that breaks after its first entry, and one whose first entry cannot be read.\<close>

definition truncated_site :: world where
  "truncated_site =
     example_world [] [regular ''a.txt'' ''same'', NextError ''unexpected EOF'',
                       regular ''readme.md'' ''hi'']"

definition unreadable_site :: world where
  "unreadable_site =
     example_world []
       [NextHeader \<lparr>Name = ''a.txt'', Typeflag = TypeReg\<rparr> (Inl ''unexpected EOF''),
        regular ''readme.md'' ''hi'']"

section \<open>The loop body and the archive loop\<close>

lemma is_write_to_is_write: "is_write_to k e \<Longrightarrow> is_write e"
  by (cases e) auto

lemma filter_to_filter_write:
  "filter (is_write_to k) (filter is_write xs) = filter (is_write_to k) xs"
  by (induction xs) (auto dest: is_write_to_is_write)

subsection \<open>One entry\<close>

lemma tar_entry_skip:
  "Typeflag h \<noteq> TypeReg \<or> Name h \<in> IgnoredFiles \<Longrightarrow> tar_entry L w hs h c s = (None, s)"
  by (auto simp: tar_entry_def)

lemma tar_entry_trace:
  "\<exists>evs. trace (snd (tar_entry L w hs h c s)) = trace s @ evs \<and>
         filter is_write evs = entry_writes L hs (NextHeader h c)"
  by (cases c)
     (auto simp: tar_entry_def wants_upload_def emit_def Let_def split: option.splits)

lemma tar_entry_frame:
  "handle (snd (tar_entry L w hs h c s)) = handle s"
  "environ (snd (tar_entry L w hs h c s)) = environ s"
  by (auto simp: tar_entry_def emit_def Let_def split: option.splits sum.splits)

lemma tar_entry_objects_other:
  "k \<noteq> Name h \<Longrightarrow> objects (snd (tar_entry L w hs h c s)) k = objects s k"
  by (auto simp: tar_entry_def emit_def Let_def split: option.splits sum.splits)

lemma tar_entry_objects_dom:
  "objects s k \<noteq> None \<Longrightarrow> objects (snd (tar_entry L w hs h c s)) k \<noteq> None"
  by (auto simp: tar_entry_def emit_def Let_def split: option.splits sum.splits)

lemma tar_entry_objects_written:
  "wants_upload L hs h d \<Longrightarrow> fst (tar_entry L w hs h (Inr d) s) = None \<Longrightarrow>
   objects (snd (tar_entry L w hs h (Inr d) s)) (Name h) = Some (d, writer_options L (Name h))"
  by (auto simp: tar_entry_def wants_upload_def emit_def Let_def split: option.splits)

subsection \<open>The whole archive\<close>

text \<open>
  The loop only appends to the trace; its \<^verbatim>\<open>WriteAll\<close> calls are among the expected
  ones, and are all of them when the loop ends without error.
\<close>

lemma tar_loop_trace:
  "\<exists>evs. trace (snd (tar_loop L w hs r s)) = trace s @ evs \<and>
         set (filter is_write evs) \<subseteq> set (expected_writes L hs r) \<and>
         (fst (tar_loop L w hs r s) = None \<longrightarrow> filter is_write evs = expected_writes L hs r)"
proof (induction r arbitrary: s)
  case Nil
  then show ?case by (simp add: expected_writes_def)
next
  case (Cons ev r)
  show ?case
  proof (cases ev)
    case (NextError err)
    then show ?thesis by (simp add: expected_writes_def)
  next
    case (NextHeader h c)
    obtain res s' where step: "tar_entry L w hs h c s = (res, s')"
      by (cases "tar_entry L w hs h c s")
    from tar_entry_trace [of L w hs h c s] step
    obtain evs1 where e1: "trace s' = trace s @ evs1"
      "filter is_write evs1 = entry_writes L hs (NextHeader h c)" by auto
    show ?thesis
    proof (cases res)
      case None
      from Cons.IH [of s'] obtain evs2 where e2:
        "trace (snd (tar_loop L w hs r s')) = trace s' @ evs2"
        "set (filter is_write evs2) \<subseteq> set (expected_writes L hs r)"
        "fst (tar_loop L w hs r s') = None \<longrightarrow> filter is_write evs2 = expected_writes L hs r"
        by (elim exE conjE)
      have "tar_loop L w hs (ev # r) s = tar_loop L w hs r s'"
        using NextHeader step None by simp
      with e1 e2 show ?thesis
        by (intro exI [of _ "evs1 @ evs2"]) (auto simp: expected_writes_def NextHeader)
    next
      case (Some err)
      then have "tar_loop L w hs (ev # r) s = (Some err, s')"
        using NextHeader step by simp
      with e1 show ?thesis
        by (intro exI [of _ evs1]) (auto simp: expected_writes_def NextHeader)
    qed
  qed
qed

lemma tar_loop_handle: "handle (snd (tar_loop L w hs r s)) = handle s"
proof (induction r arbitrary: s)
  case Nil
  show ?case by simp
next
  case (Cons ev r)
  show ?case
  proof (cases ev)
    case (NextError err)
    then show ?thesis by simp
  next
    case (NextHeader h c)
    obtain res s' where step: "tar_entry L w hs h c s = (res, s')"
      by (cases "tar_entry L w hs h c s")
    with tar_entry_frame(1) [of L w hs h c s] have "handle s' = handle s" by simp
    with Cons.IH [of s'] step NextHeader show ?thesis
      by (cases res) simp_all
  qed
qed

lemma list_loop_error:
  "first_list_error ls = Some err \<Longrightarrow> list_loop ls hashes = Inl err"
  by (induction ls hashes rule: list_loop.induct) simp_all

lemma list_loop_done:
  "first_list_error ls = None \<Longrightarrow> \<exists>hashes'. list_loop ls hashes = Inr hashes'"
  by (induction ls hashes rule: list_loop.induct) simp_all

lemma tar_entry_error:
  "fst (tar_entry L w hs h c s) = event_error L w hs (NextHeader h c)"
  by (cases c)
     (auto simp: tar_entry_def wants_upload_def emit_def Let_def split: option.splits)

lemma first_error_simps:
  "first_error L w hs [] = None"
  "first_error L w hs (ev # r) =
     (case event_error L w hs ev of Some msg \<Rightarrow> Some msg | None \<Rightarrow> first_error L w hs r)"
  by (simp_all add: first_error_def List.map_filter_simps split: option.splits)

lemma tar_loop_error:
  "fst (tar_loop L w hs r s) = first_error L w hs r"
proof (induction r arbitrary: s)
  case Nil
  show ?case by (simp add: first_error_simps)
next
  case (Cons ev r)
  show ?case
  proof (cases ev)
    case (NextError err)
    then show ?thesis by (simp add: first_error_simps)
  next
    case (NextHeader h c)
    obtain res s' where step: "tar_entry L w hs h c s = (res, s')"
      by (cases "tar_entry L w hs h c s")
    with tar_entry_error [of L w hs h c s]
    have "event_error L w hs (NextHeader h c) = res" by simp
    with Cons.IH [of s'] step NextHeader show ?thesis
      by (cases res) (simp_all add: first_error_simps)
  qed
qed

lemma tar_loop_until_error:
  "\<exists>evs. trace (snd (tar_loop L w hs r s)) = trace s @ evs \<and>
         filter is_write evs = expected_writes L hs (until_error L w hs r)"
proof (induction r arbitrary: s)
  case Nil
  show ?case by (simp add: expected_writes_def)
next
  case (Cons ev r)
  show ?case
  proof (cases ev)
    case (NextError err)
    then show ?thesis by (simp add: expected_writes_def)
  next
    case (NextHeader h c)
    obtain res s' where step: "tar_entry L w hs h c s = (res, s')"
      by (cases "tar_entry L w hs h c s")
    with tar_entry_error [of L w hs h c s]
    have res: "event_error L w hs (NextHeader h c) = res" by simp
    from tar_entry_trace [of L w hs h c s] step
    obtain evs1 where e1: "trace s' = trace s @ evs1"
      "filter is_write evs1 = entry_writes L hs (NextHeader h c)" by auto
    show ?thesis
    proof (cases res)
      case None
      from Cons.IH [of s'] obtain evs2 where e2:
        "trace (snd (tar_loop L w hs r s')) = trace s' @ evs2"
        "filter is_write evs2 = expected_writes L hs (until_error L w hs r)"
        by (elim exE conjE)
      have "tar_loop L w hs (ev # r) s = tar_loop L w hs r s'"
        using NextHeader step None by simp
      moreover have "until_error L w hs (ev # r) = ev # until_error L w hs r"
        using NextHeader res None by simp
      ultimately show ?thesis using e1 e2 NextHeader
        by (intro exI [of _ "evs1 @ evs2"]) (simp add: expected_writes_def)
    next
      case (Some err)
      then have "tar_loop L w hs (ev # r) s = (Some err, s')"
        using NextHeader step by simp
      moreover have "until_error L w hs (ev # r) = [ev]"
        using NextHeader res Some by simp
      ultimately show ?thesis using e1 NextHeader
        by (intro exI [of _ evs1]) (simp add: expected_writes_def)
    qed
  qed
qed

lemma tar_loop_objects_other:
  "k \<notin> set (tar_names r) \<Longrightarrow> objects (snd (tar_loop L w hs r s)) k = objects s k"
proof (induction r arbitrary: s)
  case Nil
  show ?case by simp
next
  case (Cons ev r)
  show ?case
  proof (cases ev)
    case (NextError err)
    then show ?thesis by simp
  next
    case (NextHeader h c)
    obtain res s' where step: "tar_entry L w hs h c s = (res, s')"
      by (cases "tar_entry L w hs h c s")
    from Cons.prems NextHeader have "k \<noteq> Name h" "k \<notin> set (tar_names r)" by auto
    with tar_entry_objects_other [of k h L w hs c s] step Cons.IH [of s']
    have "objects s' k = objects s k" "objects (snd (tar_loop L w hs r s')) k = objects s' k"
      by simp_all
    with step NextHeader show ?thesis
      by (cases res) simp_all
  qed
qed

lemma tar_loop_objects_dom:
  "objects s k \<noteq> None \<Longrightarrow> objects (snd (tar_loop L w hs r s)) k \<noteq> None"
proof (induction r arbitrary: s)
  case Nil
  then show ?case by simp
next
  case (Cons ev r)
  show ?case
  proof (cases ev)
    case (NextError err)
    with Cons.prems show ?thesis by simp
  next
    case (NextHeader h c)
    obtain res s' where step: "tar_entry L w hs h c s = (res, s')"
      by (cases "tar_entry L w hs h c s")
    with tar_entry_objects_dom [of s k L w hs h c] Cons.prems
    have "objects s' k \<noteq> None" by simp
    with Cons.IH [of s'] step NextHeader show ?thesis
      by (cases res) simp_all
  qed
qed

lemma tar_loop_objects_written:
  "fst (tar_loop L w hs r s) = None \<Longrightarrow> distinct (tar_names r) \<Longrightarrow>
   NextHeader h (Inr d) \<in> set r \<Longrightarrow> wants_upload L hs h d \<Longrightarrow>
   objects (snd (tar_loop L w hs r s)) (Name h) = Some (d, writer_options L (Name h))"
proof (induction r arbitrary: s)
  case Nil
  then show ?case by simp
next
  case (Cons ev r)
  show ?case
  proof (cases ev)
    case (NextError err)
    with Cons.prems show ?thesis by simp
  next
    case (NextHeader h' c)
    obtain res s' where step: "tar_entry L w hs h' c s = (res, s')"
      by (cases "tar_entry L w hs h' c s")
    from Cons.prems(1) step NextHeader have res: "res = None"
      by (cases res) simp_all
    with step NextHeader have loop: "tar_loop L w hs (ev # r) s = tar_loop L w hs r s'"
      by simp
    show ?thesis
    proof (cases "NextHeader h (Inr d) \<in> set r")
      case True
      with Cons.IH [of s'] Cons.prems loop NextHeader show ?thesis by simp
    next
      case False
      with Cons.prems(3) NextHeader have same: "h' = h" "c = Inr d" by auto
      with Cons.prems(2) NextHeader have "Name h \<notin> set (tar_names r)" by simp
      then have "objects (snd (tar_loop L w hs r s')) (Name h) = objects s' (Name h)"
        by (rule tar_loop_objects_other)
      moreover have "objects s' (Name h) = Some (d, writer_options L (Name h))"
        using tar_entry_objects_written [of L hs h d w s] Cons.prems(4) step res same by simp
      ultimately show ?thesis using loop by simp
    qed
  qed
qed

subsection \<open>The expected writes\<close>

lemma expected_writes_iff:
  "e \<in> set (expected_writes L hs r) \<longleftrightarrow>
     (\<exists>h d. NextHeader h (Inr d) \<in> set r \<and> wants_upload L hs h d \<and>
            e = EvWriteAll (Name h) d (writer_options L (Name h)))"
proof (induction r)
  case Nil
  show ?case by (simp add: expected_writes_def)
next
  case (Cons ev r)
  have split: "expected_writes L hs (ev # r) = entry_writes L hs ev @ expected_writes L hs r"
    by (simp add: expected_writes_def)
  have head: "e \<in> set (entry_writes L hs ev) \<longleftrightarrow>
     (\<exists>h d. ev = NextHeader h (Inr d) \<and> wants_upload L hs h d \<and>
            e = EvWriteAll (Name h) d (writer_options L (Name h)))"
    by (cases "(L, hs, ev)" rule: entry_writes.cases) auto
  show ?case
    unfolding split set_append Un_iff head Cons.IH by auto
qed

lemma expected_writes_none:
  "k \<notin> set (tar_names r) \<Longrightarrow> filter (is_write_to k) (expected_writes L hs r) = []"
proof (induction r)
  case Nil
  show ?case by (simp add: expected_writes_def)
next
  case (Cons ev r)
  have split: "expected_writes L hs (ev # r) = entry_writes L hs ev @ expected_writes L hs r"
    by (simp add: expected_writes_def)
  from Cons.prems have "filter (is_write_to k) (entry_writes L hs ev) = []"
    by (cases "(L, hs, ev)" rule: entry_writes.cases) auto
  moreover from Cons.prems have "k \<notin> set (tar_names r)"
    by (cases ev) auto
  ultimately show ?case using Cons.IH split by simp
qed

lemma expected_writes_one:
  "distinct (tar_names r) \<Longrightarrow> NextHeader h (Inr d) \<in> set r \<Longrightarrow> wants_upload L hs h d \<Longrightarrow>
   filter (is_write_to (Name h)) (expected_writes L hs r) =
     [EvWriteAll (Name h) d (writer_options L (Name h))]"
proof (induction r)
  case Nil
  then show ?case by simp
next
  case (Cons ev r)
  have split: "expected_writes L hs (ev # r) = entry_writes L hs ev @ expected_writes L hs r"
    by (simp add: expected_writes_def)
  show ?case
  proof (cases "NextHeader h (Inr d) \<in> set r")
    case True
    then have "Name h \<in> set (tar_names r)"
      by (induction r rule: tar_names.induct) auto
    with Cons.prems(1) have "filter (is_write_to (Name h)) (entry_writes L hs ev) = []"
      by (cases "(L, hs, ev)" rule: entry_writes.cases) auto
    moreover from Cons.prems(1) have "distinct (tar_names r)"
      by (cases ev) auto
    ultimately show ?thesis using Cons.IH True Cons.prems(3) split by simp
  next
    case False
    with Cons.prems(2) have ev: "ev = NextHeader h (Inr d)" by simp
    with Cons.prems(1) have "Name h \<notin> set (tar_names r)" by simp
    then have "filter (is_write_to (Name h)) (expected_writes L hs r) = []"
      by (rule expected_writes_none)
    with ev Cons.prems(3) split show ?thesis by simp
  qed
qed

section \<open>The four ways through \<^verbatim>\<open>Run\<close>\<close>

lemma Run_open_failed:
  "OpenBucket_err w (bucketURL m) = Some err \<Longrightarrow>
   Run L m w = (Returned (Some (''open bucket: '' @ err)), setenv_state m w)"
  by (simp add: Run_def)

lemma Run_list_failed:
  "OpenBucket_err w (bucketURL m) = None \<Longrightarrow> list_loop (listing w) Map.empty = Inl err \<Longrightarrow>
   Run L m w = (Exited 1, emit (EvLog err) (opened_state m w))"
  by (simp add: Run_def opened_state_def)

lemma Run_tar_failed:
  "OpenBucket_err w (bucketURL m) = None \<Longrightarrow> list_loop (listing w) Map.empty = Inr hashes \<Longrightarrow>
   getSiteTar m w = Inl err \<Longrightarrow>
   Run L m w = (Returned (Some (''get site tar: '' @ err)), (opened_state m w)\<lparr>handle := Closed\<rparr>)"
  by (simp add: Run_def opened_state_def)

lemma Run_loop:
  "OpenBucket_err w (bucketURL m) = None \<Longrightarrow> list_loop (listing w) Map.empty = Inr hashes \<Longrightarrow>
   getSiteTar m w = Inr r \<Longrightarrow>
   Run L m w = (Returned (fst (tar_loop L w hashes r (opened_state m w))),
                (snd (tar_loop L w hashes r (opened_state m w)))\<lparr>handle := Closed\<rparr>)"
  by (simp add: Run_def opened_state_def split: prod.splits)

lemma Run_returned_nil:
  assumes "Run L m w = (Returned None, s)"
  obtains hashes r where
    "OpenBucket_err w (bucketURL m) = None"
    "list_loop (listing w) Map.empty = Inr hashes"
    "getSiteTar m w = Inr r"
    "fst (tar_loop L w hashes r (opened_state m w)) = None"
    "s = (snd (tar_loop L w hashes r (opened_state m w)))\<lparr>handle := Closed\<rparr>"
proof (cases "OpenBucket_err w (bucketURL m)")
  case (Some err)
  with assms Run_open_failed [of w m err L] show ?thesis by simp
next
  case None
  show ?thesis
  proof (cases "list_loop (listing w) Map.empty")
    case (Inl err)
    with assms None Run_list_failed [of w m err L] show ?thesis by simp
  next
    case (Inr hashes)
    show ?thesis
    proof (cases "getSiteTar m w")
      case (Inl err)
      with assms None Inr Run_tar_failed [of w m hashes err L] show ?thesis by simp
    next
      case r: (Inr r)
      with assms None Inr Run_loop [of w m hashes r L] that [of hashes r] show ?thesis by simp
    qed
  qed
qed

lemma Run_writes:
  assumes "e \<in> set (trace (snd (Run L m w)))" and "is_write e"
  obtains hashes r where
    "list_loop (listing w) Map.empty = Inr hashes"
    "getSiteTar m w = Inr r"
    "e \<in> set (expected_writes L hashes r)"
proof (cases "OpenBucket_err w (bucketURL m)")
  case (Some err)
  with assms Run_open_failed [of w m err L] show ?thesis
    by (simp add: setenv_state_def)
next
  case None
  show ?thesis
  proof (cases "list_loop (listing w) Map.empty")
    case (Inl err)
    with assms None Run_list_failed [of w m err L] show ?thesis
      by (auto simp: setenv_state_def opened_state_def emit_def)
  next
    case (Inr hashes)
    show ?thesis
    proof (cases "getSiteTar m w")
      case (Inl err)
      with assms None Inr Run_tar_failed [of w m hashes err L] show ?thesis
        by (simp add: setenv_state_def opened_state_def)
    next
      case r: (Inr r)
      obtain evs where evs:
        "trace (snd (tar_loop L w hashes r (opened_state m w))) = trace (opened_state m w) @ evs"
        "set (filter is_write evs) \<subseteq> set (expected_writes L hashes r)"
        using tar_loop_trace [of L w hashes r "opened_state m w"] by (elim exE conjE)
      from assms(1) None Inr r Run_loop [of w m hashes r L] evs(1)
      have "e \<in> set evs" by (simp add: opened_state_def setenv_state_def)
      with assms(2) evs(2) have "e \<in> set (expected_writes L hashes r)" by auto
      with Inr r that show ?thesis by blast
    qed
  qed
qed

lemma Run_writes_complete:
  assumes "Run L m w = (Returned None, s)"
    and "list_loop (listing w) Map.empty = Inr hashes"
    and "getSiteTar m w = Inr r"
  shows "filter is_write (trace s) = expected_writes L hashes r"
proof -
  from assms(1) obtain hashes' r' where run:
    "list_loop (listing w) Map.empty = Inr hashes'" "getSiteTar m w = Inr r'"
    "fst (tar_loop L w hashes' r' (opened_state m w)) = None"
    "s = (snd (tar_loop L w hashes' r' (opened_state m w)))\<lparr>handle := Closed\<rparr>"
    by (rule Run_returned_nil)
  with assms(2,3) have eq: "hashes' = hashes" "r' = r" by simp_all
  obtain evs where evs:
    "trace (snd (tar_loop L w hashes r (opened_state m w))) = trace (opened_state m w) @ evs"
    "fst (tar_loop L w hashes r (opened_state m w)) = None \<longrightarrow>
       filter is_write evs = expected_writes L hashes r"
    using tar_loop_trace [of L w hashes r "opened_state m w"] by (elim exE conjE)
  with run eq show ?thesis by (simp add: opened_state_def setenv_state_def)
qed

lemma Run_cases:
  obtains
    (open_failed) err where
      "OpenBucket_err w (bucketURL m) = Some err"
      "Run L m w = (Returned (Some (''open bucket: '' @ err)), setenv_state m w)"
  | (list_failed) err where
      "OpenBucket_err w (bucketURL m) = None"
      "list_loop (listing w) Map.empty = Inl err"
      "Run L m w = (Exited 1, emit (EvLog err) (opened_state m w))"
  | (tar_failed) hashes err where
      "OpenBucket_err w (bucketURL m) = None"
      "list_loop (listing w) Map.empty = Inr hashes"
      "getSiteTar m w = Inl err"
      "Run L m w =
         (Returned (Some (''get site tar: '' @ err)), (opened_state m w)\<lparr>handle := Closed\<rparr>)"
  | (loop) hashes r where
      "OpenBucket_err w (bucketURL m) = None"
      "list_loop (listing w) Map.empty = Inr hashes"
      "getSiteTar m w = Inr r"
      "Run L m w = (Returned (fst (tar_loop L w hashes r (opened_state m w))),
                    (snd (tar_loop L w hashes r (opened_state m w)))\<lparr>handle := Closed\<rparr>)"
proof (cases "OpenBucket_err w (bucketURL m)")
  case (Some err)
  with Run_open_failed [of w m err L] open_failed show ?thesis by simp
next
  case None
  show ?thesis
  proof (cases "list_loop (listing w) Map.empty")
    case (Inl err)
    with None Run_list_failed [of w m err L] list_failed show ?thesis by simp
  next
    case (Inr hashes)
    show ?thesis
    proof (cases "getSiteTar m w")
      case (Inl err)
      with None Inr Run_tar_failed [of w m hashes err L] tar_failed show ?thesis by simp
    next
      case r: (Inr r)
      with None Inr Run_loop [of w m hashes r L] loop show ?thesis by simp
    qed
  qed
qed

lemma Run_objects_other:
  "k \<notin> local_names m w \<Longrightarrow> objects (snd (Run L m w)) k = stored w k"
proof (cases rule: Run_cases [of w m L])
  case (loop hashes r)
  assume "k \<notin> local_names m w"
  with loop(3) have "k \<notin> set (tar_names r)" by (simp add: local_names_def)
  then have "objects (snd (tar_loop L w hashes r (opened_state m w))) k =
             objects (opened_state m w) k"
    by (rule tar_loop_objects_other)
  with loop(4) show ?thesis by (simp add: opened_state_def setenv_state_def)
qed (simp_all add: opened_state_def setenv_state_def emit_def)

lemma Run_objects_dom:
  "stored w k \<noteq> None \<Longrightarrow> objects (snd (Run L m w)) k \<noteq> None"
proof (cases rule: Run_cases [of w m L])
  case (loop hashes r)
  assume "stored w k \<noteq> None"
  then have "objects (opened_state m w) k \<noteq> None"
    by (simp add: opened_state_def setenv_state_def)
  then have "objects (snd (tar_loop L w hashes r (opened_state m w))) k \<noteq> None"
    by (rule tar_loop_objects_dom)
  with loop(4) show ?thesis by simp
qed (simp_all add: opened_state_def setenv_state_def emit_def)

lemma in_tar_names: "NextHeader h c \<in> set r \<Longrightarrow> Name h \<in> set (tar_names r)"
  by (induction r rule: tar_names.induct) auto

lemma tar_loop_drop_skipped:
  "Typeflag h \<noteq> TypeReg \<or> Name h \<in> IgnoredFiles \<Longrightarrow>
   tar_loop L w hs (pre @ NextHeader h c # post) s = tar_loop L w hs (pre @ post) s"
proof (induction pre arbitrary: s)
  case Nil
  then show ?case by (simp add: tar_entry_skip)
next
  case (Cons ev pre)
  then show ?case
    by (cases ev) (simp_all split: prod.splits option.splits)
qed

lemma tar_entry_stdout:
  "tar_entry L (w\<lparr>stdout := f\<rparr>) hs h c s = tar_entry L w hs h c s"
  by (auto simp: tar_entry_def Let_def split: sum.splits option.splits prod.splits)

lemma tar_loop_stdout:
  "tar_loop L (w\<lparr>stdout := f\<rparr>) hs r s = tar_loop L w hs r s"
  by (induction r arbitrary: s rule: tar_names.induct)
     (simp_all add: tar_entry_stdout split: prod.splits option.splits)

section \<open>Evaluating the example runs\<close>

lemmas example_defs =
  example_md5_def md5_table_def example_mime_def example_lib_def example_mirror_def
  regular_def listed_def example_world_def New_def WithGitRepoRoot_def WithAwsProfile_def
  WithAwsRegion_def WithBucketURL_def

lemmas run_defs =
  Run_def setenv_state_def getSiteTar_def git_cmd_def tar_entry_def emit_def
  writer_options_def path_Ext_def IgnoredFiles_def TypeReg_def ellipsis_def Let_def

lemma example_lib_simps:
  "md5_Sum example_lib = example_md5"
  "TypeByExtension example_lib = example_mime"
  by (simp_all add: example_lib_def)

lemma example_md5_differs:
  "example_md5 ''new content'' \<noteq> example_md5 ''old''"
  by (simp add: example_md5_def md5_table_def)

lemma changed_site_listing:
  "list_loop (listing changed_site) Map.empty =
     Inr [''index.html'' \<mapsto> example_md5 ''old'', ''a.txt'' \<mapsto> example_md5 ''same'']"
  by (simp add: changed_site_def example_world_def listed_def)

lemma changed_site_tar:
  "getSiteTar example_mirror changed_site =
     Inr [regular ''index.html'' ''new content'', regular ''readme.md'' ''hi'',
          regular ''a.txt'' ''same'']"
  by (simp add: changed_site_def example_world_def getSiteTar_def)

lemma changed_site_run:
  "Run example_lib example_mirror changed_site =
     (Returned None,
      \<lparr>environ = [''AWS_REGION'' \<mapsto> ''us-east-1'', ''AWS_PROFILE'' \<mapsto> ''example.com''],
       handle = Closed,
       objects = [''index.html'' \<mapsto> (''new content'',
                     Some \<lparr>ContentType = ''text/html; charset=utf-8''\<rparr>),
                  ''readme.md'' \<mapsto> (''hi'', None)],
       trace = [EvReadAll ''index.html'', EvMD5 ''new content'',
                EvLog (''uploading index.html'' @ ellipsis),
                EvWriteAll ''index.html'' ''new content''
                  (Some \<lparr>ContentType = ''text/html; charset=utf-8''\<rparr>),
                EvReadAll ''readme.md'',
                EvLog (''uploading readme.md'' @ ellipsis),
                EvWriteAll ''readme.md'' ''hi'' None,
                EvReadAll ''a.txt'', EvMD5 ''same'',
                EvLog (''skipping a.txt'' @ ellipsis)]\<rparr>)"
  by (simp add: changed_site_def example_defs run_defs)


lemma Run_uploads:
  assumes "Run L m w = (Returned None, s)"
    and "list_loop (listing w) Map.empty = Inr hashes"
    and "getSiteTar m w = Inr r"
    and "NextHeader h (Inr d) \<in> set r"
    and "wants_upload L hashes h d"
  shows "EvWriteAll (Name h) d (writer_options L (Name h)) \<in> set (trace s)"
proof -
  from assms(4,5) have "EvWriteAll (Name h) d (writer_options L (Name h))
      \<in> set (expected_writes L hashes r)"
    unfolding expected_writes_iff by blast
  also have "expected_writes L hashes r = filter is_write (trace s)"
    using assms(1-3) by (simp only: Run_writes_complete)
  finally show ?thesis by simp
qed

lemma list_loop_unlisted:
  "list_loop ls h0 = Inr hashes \<Longrightarrow>
   (\<forall>obj. ListItem obj \<in> set ls \<and> Key obj = k \<longrightarrow> MD5 obj = None) \<Longrightarrow>
   hashes k = h0 k"
proof (induction ls h0 rule: list_loop.induct)
  case (1 hashes)
  then show ?case by simp
next
  case (2 err itr hashes)
  then show ?case by simp
next
  case (3 obj itr h0)
  from "3.prems"(2) have "Key obj = k \<longrightarrow> MD5 obj = None" by simp
  then have "(case MD5 obj of Some remoteSum \<Rightarrow> h0(Key obj \<mapsto> remoteSum) | None \<Rightarrow> h0) k = h0 k"
    by (cases "MD5 obj") auto
  with "3.IH" "3.prems" show ?case by simp
qed

lemma example_lists:
  "list_loop (listing (example_world remote archive)) hashes = list_loop remote hashes"
  "getSiteTar example_mirror (example_world remote archive) = Inr archive"
  by (simp_all add: example_world_def getSiteTar_def)



lemma unhashed_site_run:
  "fst (Run example_lib example_mirror unhashed_site) = Returned None"
  by (simp add: unhashed_site_def example_defs run_defs)

lemma unhashed_site_facts:
  "list_loop (listing unhashed_site) Map.empty = Inr Map.empty"
  "getSiteTar example_mirror unhashed_site = Inr [regular ''readme.md'' ''hi'']"
  "listing unhashed_site = [ListItem \<lparr>Key = ''readme.md'', MD5 = None\<rparr>]"
  "stored unhashed_site ''readme.md'' = Some (''hi'', None)"
  by (simp_all add: unhashed_site_def example_world_def getSiteTar_def)

lemma styled_site_run:
  "trace (snd (Run example_lib example_mirror styled_site)) =
     [EvReadAll ''style.css'', EvLog (''uploading style.css'' @ ellipsis),
      EvWriteAll ''style.css'' ''body { }'' (Some \<lparr>ContentType = ''text/css; charset=utf-8''\<rparr>),
      EvReadAll ''LICENSE'', EvLog (''uploading LICENSE'' @ ellipsis),
      EvWriteAll ''LICENSE'' ''MIT'' None]"
  by (simp add: styled_site_def example_defs run_defs)

lemma nested_site_run:
  "fst (Run example_lib example_mirror nested_site) = Returned None"
  by (simp add: nested_site_def example_defs run_defs)

lemma nested_site_facts:
  "list_loop (listing nested_site) Map.empty = Inr Map.empty"
  "getSiteTar example_mirror nested_site =
     Inr [regular ''docs/.gitignore'' ''*.o'', regular ''.gitignore'' ''*.o'']"
  by (simp_all add: nested_site_def example_lists)

lemma failing_site_facts:
  "first_list_error (listing unlistable_site) = Some ''connection reset''"
  "OpenBucket_err unopenable_site url = Some ''no such bucket''"
  "OpenBucket_err unlistable_site url = None"
  "OpenBucket_err pipeless_site url = None"
  "OpenBucket_err gitless_site url = None"
  "OpenBucket_err truncated_site url = None"
  "OpenBucket_err unreadable_site url = None"
  "OpenBucket_err readonly_site url = None"
  "first_list_error (listing pipeless_site) = None"
  "first_list_error (listing gitless_site) = None"
  "first_list_error (listing truncated_site) = None"
  "first_list_error (listing unreadable_site) = None"
  "first_list_error (listing readonly_site) = None"
  "StdoutPipe_err pipeless_site cmd = Some ''exec: Stdout already set''"
  "StdoutPipe_err gitless_site cmd = None"
  "Start_err gitless_site cmd = Some ''fork/exec /usr/bin/git: no such file or directory''"
  by (simp_all add: unlistable_site_def unopenable_site_def pipeless_site_def gitless_site_def
        truncated_site_def unreadable_site_def readonly_site_def example_world_def listed_def)

lemma failing_loop_facts:
  "StdoutPipe_err truncated_site cmd = None" "Start_err truncated_site cmd = None"
  "StdoutPipe_err unreadable_site cmd = None" "Start_err unreadable_site cmd = None"
  "StdoutPipe_err readonly_site cmd = None" "Start_err readonly_site cmd = None"
  "list_loop (listing truncated_site) Map.empty = Inr Map.empty"
  "list_loop (listing unreadable_site) Map.empty = Inr Map.empty"
  "list_loop (listing readonly_site) Map.empty = Inr Map.empty"
  "stdout truncated_site cmd =
     [regular ''a.txt'' ''same'', NextError ''unexpected EOF'', regular ''readme.md'' ''hi'']"
  "stdout unreadable_site cmd =
     [NextHeader \<lparr>Name = ''a.txt'', Typeflag = TypeReg\<rparr> (Inl ''unexpected EOF''),
      regular ''readme.md'' ''hi'']"
  "stdout readonly_site cmd = [regular ''a.txt'' ''same'']"
  "WriteAll_err truncated_site key data = None"
  "WriteAll_err unreadable_site key data = None"
  "WriteAll_err readonly_site key data = Some ''access denied''"
  by (simp_all add: truncated_site_def unreadable_site_def readonly_site_def example_world_def)

section \<open>The claims\<close>

subsection \<open>C1\<close>

text \<open>
  Claim C1. Take a run that returns nil, and an entry of the archive that is a regular
  file, is not in the ignore set, and whose name is a key of the checksum index built
  from the listing. Then \<^verbatim>\<open>Run\<close> calls \<^verbatim>\<open>WriteAll\<close> with that key and the entry's
  content if and only if \<^verbatim>\<open>md5.Sum\<close> of the content differs from the recorded sum.
\<close>

theorem C1_upload_iff_checksum_differs:
  assumes "Run L m w = (Returned None, s)"
    and "list_loop (listing w) Map.empty = Inr hashes"
    and "getSiteTar m w = Inr r"
    and "NextHeader header (Inr data) \<in> set r"
    and "Typeflag header = TypeReg"
    and "Name header \<notin> IgnoredFiles"
    and "hashes (Name header) = Some remoteSum"
  shows "(\<exists>opts. EvWriteAll (Name header) data opts \<in> set (trace s)) \<longleftrightarrow>
         md5_Sum L data \<noteq> remoteSum"
proof
  assume "\<exists>opts. EvWriteAll (Name header) data opts \<in> set (trace s)"
  then obtain opts where "EvWriteAll (Name header) data opts \<in> set (filter is_write (trace s))"
    by auto
  with assms(1-3) have "EvWriteAll (Name header) data opts \<in> set (expected_writes L hashes r)"
    by (simp add: Run_writes_complete)
  then obtain h d where "wants_upload L hashes h d" "Name h = Name header" "d = data"
    unfolding expected_writes_iff by auto
  with assms(7) show "md5_Sum L data \<noteq> remoteSum"
    by (auto simp: wants_upload_def)
next
  assume "md5_Sum L data \<noteq> remoteSum"
  with assms(5-7) have "wants_upload L hashes header data"
    by (auto simp: wants_upload_def)
  with assms(4) have "EvWriteAll (Name header) data (writer_options L (Name header))
      \<in> set (expected_writes L hashes r)"
    unfolding expected_writes_iff by blast
  with assms(1-3) have "EvWriteAll (Name header) data (writer_options L (Name header))
      \<in> set (filter is_write (trace s))"
    by (simp add: Run_writes_complete)
  then show "\<exists>opts. EvWriteAll (Name header) data opts \<in> set (trace s)"
    by auto
qed

theorem C1_witness:
  "Run example_lib example_mirror changed_site =
     (Returned None, snd (Run example_lib example_mirror changed_site)) \<and>
   ((\<exists>opts. EvWriteAll ''index.html'' ''new content'' opts
        \<in> set (trace (snd (Run example_lib example_mirror changed_site)))) \<longleftrightarrow>
      md5_Sum example_lib ''new content'' \<noteq> example_md5 ''old'') \<and>
   md5_Sum example_lib ''new content'' \<noteq> example_md5 ''old'' \<and>
   ((\<exists>opts. EvWriteAll ''a.txt'' ''same'' opts
        \<in> set (trace (snd (Run example_lib example_mirror changed_site)))) \<longleftrightarrow>
      md5_Sum example_lib ''same'' \<noteq> example_md5 ''same'')"
  using
    C1_upload_iff_checksum_differs
      [where L = example_lib and m = example_mirror and w = changed_site
         and s = "snd (Run example_lib example_mirror changed_site)"
         and header = "\<lparr>Name = ''index.html'', Typeflag = TypeReg\<rparr>"
         and data = "''new content''" and remoteSum = "example_md5 ''old''",
       OF _ changed_site_listing changed_site_tar]
    C1_upload_iff_checksum_differs
      [where L = example_lib and m = example_mirror and w = changed_site
         and s = "snd (Run example_lib example_mirror changed_site)"
         and header = "\<lparr>Name = ''a.txt'', Typeflag = TypeReg\<rparr>"
         and data = "''same''" and remoteSum = "example_md5 ''same''",
       OF _ changed_site_listing changed_site_tar]
  by (simp add: changed_site_run regular_def IgnoredFiles_def example_lib_simps
        example_md5_differs)

subsection \<open>C2\<close>

text \<open>
  Claim C2. Take a run that returns nil over an archive whose entry names are distinct
  (it is the export of a tree), and a regular, non-ignored entry whose key is absent from
  the checksum index or recorded with a different sum. Then the \<^verbatim>\<open>WriteAll\<close> calls under
  that key are exactly one, it carries the entry's content as \<^verbatim>\<open>ioutil.ReadAll\<close>
  returned it, and the bucket holds that content under the key afterwards.
\<close>

theorem C2_exactly_one_upload:
  assumes "Run L m w = (Returned None, s)"
    and "list_loop (listing w) Map.empty = Inr hashes"
    and "getSiteTar m w = Inr r"
    and "distinct (tar_names r)"
    and "NextHeader header (Inr data) \<in> set r"
    and "Typeflag header = TypeReg"
    and "Name header \<notin> IgnoredFiles"
    and "hashes (Name header) = None \<or>
         (\<exists>remoteSum. hashes (Name header) = Some remoteSum \<and> remoteSum \<noteq> md5_Sum L data)"
  shows "filter (is_write_to (Name header)) (trace s) =
           [EvWriteAll (Name header) data (writer_options L (Name header))] \<and>
         objects s (Name header) = Some (data, writer_options L (Name header))"
proof
  from assms(6-8) have wants: "wants_upload L hashes header data"
    by (auto simp: wants_upload_def)
  have "filter (is_write_to (Name header)) (trace s) =
        filter (is_write_to (Name header)) (filter is_write (trace s))"
    by (simp only: filter_to_filter_write)
  also have "\<dots> = filter (is_write_to (Name header)) (expected_writes L hashes r)"
    using assms(1-3) by (simp only: Run_writes_complete)
  also have "\<dots> = [EvWriteAll (Name header) data (writer_options L (Name header))]"
    using assms(4,5) wants by (rule expected_writes_one)
  finally show "filter (is_write_to (Name header)) (trace s) =
      [EvWriteAll (Name header) data (writer_options L (Name header))]" .
  from assms(1) obtain hashes' r' where run:
    "list_loop (listing w) Map.empty = Inr hashes'" "getSiteTar m w = Inr r'"
    "fst (tar_loop L w hashes' r' (opened_state m w)) = None"
    "s = (snd (tar_loop L w hashes' r' (opened_state m w)))\<lparr>handle := Closed\<rparr>"
    by (rule Run_returned_nil)
  with assms(2,3) have eq: "hashes' = hashes" "r' = r" by simp_all
  from run(3) assms(4,5) wants
  have "objects (snd (tar_loop L w hashes r (opened_state m w))) (Name header) =
        Some (data, writer_options L (Name header))"
    unfolding eq by (rule tar_loop_objects_written)
  with run(4) eq show "objects s (Name header) = Some (data, writer_options L (Name header))"
    by simp
qed

theorem C2_witness:
  "Run example_lib example_mirror changed_site =
     (Returned None, snd (Run example_lib example_mirror changed_site)) \<and>
   filter (is_write_to ''readme.md'') (trace (snd (Run example_lib example_mirror changed_site))) =
     [EvWriteAll ''readme.md'' ''hi'' None] \<and>
   objects (snd (Run example_lib example_mirror changed_site)) ''readme.md'' = Some (''hi'', None) \<and>
   filter (is_write_to ''index.html'')
       (trace (snd (Run example_lib example_mirror changed_site))) =
     [EvWriteAll ''index.html'' ''new content''
        (Some \<lparr>ContentType = ''text/html; charset=utf-8''\<rparr>)]"
  using
    C2_exactly_one_upload
      [where L = example_lib and m = example_mirror and w = changed_site
         and s = "snd (Run example_lib example_mirror changed_site)"
         and header = "\<lparr>Name = ''readme.md'', Typeflag = TypeReg\<rparr>" and data = "''hi''",
       OF _ changed_site_listing changed_site_tar]
    C2_exactly_one_upload
      [where L = example_lib and m = example_mirror and w = changed_site
         and s = "snd (Run example_lib example_mirror changed_site)"
         and header = "\<lparr>Name = ''index.html'', Typeflag = TypeReg\<rparr>"
         and data = "''new content''",
       OF _ changed_site_listing changed_site_tar]
  by (simp add: changed_site_run regular_def IgnoredFiles_def example_lib_simps
        example_md5_differs writer_options_def path_Ext_def example_mime_def)

subsection \<open>C3\<close>



subsection \<open>C4\<close>

text \<open>
  Claim C4. The ignore set contains \<^verbatim>\<open>.gitignore\<close>, and no run, whatever the listing
  reports and whatever the archive holds, calls \<^verbatim>\<open>WriteAll\<close> under a key of the
  ignore set.
\<close>

theorem C4_ignored_never_uploaded:
  "''.gitignore'' \<in> IgnoredFiles \<and>
   (\<forall>k\<in>IgnoredFiles. filter (is_write_to k) (trace (snd (Run L m w))) = [])"
proof
  show "''.gitignore'' \<in> IgnoredFiles" by (simp add: IgnoredFiles_def)
  show "\<forall>k\<in>IgnoredFiles. filter (is_write_to k) (trace (snd (Run L m w))) = []"
  proof
    fix k assume ign: "k \<in> IgnoredFiles"
    show "filter (is_write_to k) (trace (snd (Run L m w))) = []"
    proof (rule ccontr)
      assume "filter (is_write_to k) (trace (snd (Run L m w))) \<noteq> []"
      then obtain e where e: "e \<in> set (trace (snd (Run L m w)))" "is_write_to k e"
        by (auto simp: filter_empty_conv)
      then have "is_write e" by (simp add: is_write_to_is_write)
      with e(1) obtain hashes r where "e \<in> set (expected_writes L hashes r)"
        by (rule Run_writes)
      then obtain h d where "wants_upload L hashes h d"
        "e = EvWriteAll (Name h) d (writer_options L (Name h))"
        unfolding expected_writes_iff by blast
      with e(2) ign show False by (simp add: wants_upload_def)
    qed
  qed
qed

theorem C4_witness:
  "''.gitignore'' \<in> IgnoredFiles \<and>
   filter (is_write_to ''.gitignore'')
     (trace (snd (Run example_lib example_mirror (ignored_site [])))) = [] \<and>
   filter (is_write_to ''.gitignore'')
     (trace (snd (Run example_lib example_mirror
        (ignored_site [listed ''.gitignore'' ''*.o''])))) = [] \<and>
   filter (is_write_to ''.gitignore'')
     (trace (snd (Run example_lib example_mirror
        (ignored_site [listed ''.gitignore'' ''old''])))) = []"
  using
    C4_ignored_never_uploaded [of example_lib example_mirror "ignored_site []"]
    C4_ignored_never_uploaded
      [of example_lib example_mirror "ignored_site [listed ''.gitignore'' ''*.o'']"]
    C4_ignored_never_uploaded
      [of example_lib example_mirror "ignored_site [listed ''.gitignore'' ''old'']"]
  by blast

subsection \<open>C5\<close>

text \<open>
  Claim C5. An archive entry whose type flag is not \<^verbatim>\<open>tar.TypeReg\<close> leaves no mark on
  the run: outcome, bucket and the whole sequence of reads, checksum computations, log
  lines and \<^verbatim>\<open>WriteAll\<close> calls are those of the run over the archive without that entry,
  for every listing and every bucket content.
\<close>

theorem C5_non_regular_entries_untouched:
  assumes "stdout w (git_cmd m) = pre @ NextHeader header content # post"
    and "Typeflag header \<noteq> TypeReg"
  shows "Run L m w = Run L m (w\<lparr>stdout := \<lambda>cmd. pre @ post\<rparr>)"
proof -
  let ?w = "w\<lparr>stdout := \<lambda>cmd. pre @ post\<rparr>"
  have loops: "tar_loop L ?w hs (pre @ post) s0 = tar_loop L w hs (stdout w (git_cmd m)) s0"
    for hs s0
    using assms by (simp add: tar_loop_stdout tar_loop_drop_skipped)
  show ?thesis
    by (auto simp: Run_def getSiteTar_def setenv_state_def Let_def loops
             split: option.splits sum.splits prod.splits)
qed

theorem C5_witness:
  "Typeflag \<lparr>Name = ''docs/'', Typeflag = TypeDir\<rparr> \<noteq> TypeReg \<and>
   Run example_lib example_mirror directory_site =
   Run example_lib example_mirror
     (directory_site\<lparr>stdout :=
        \<lambda>cmd. [regular ''index.html'' ''new content''] @ [regular ''readme.md'' ''hi'']\<rparr>)"
  using
    C5_non_regular_entries_untouched
      [where L = example_lib and m = example_mirror and w = directory_site
         and pre = "[regular ''index.html'' ''new content'']"
         and header = "\<lparr>Name = ''docs/'', Typeflag = TypeDir\<rparr>"
         and content = "Inr []"
         and post = "[regular ''readme.md'' ''hi'']"]
  by (simp add: directory_site_def example_world_def TypeDir_def TypeReg_def)

subsection \<open>C6\<close>

text \<open>
  Claim C6. Let a listed object expose no MD5, and let no listed object under the same
  key expose one. Then the checksum index has no entry for the key, and a run that
  returns nil over an archive with a regular, non-ignored entry of that name writes
  the entry's content under the key, whatever the bucket stores there.
\<close>

theorem C6_object_without_md5_reuploaded:
  assumes "Run L m w = (Returned None, s)"
    and "list_loop (listing w) Map.empty = Inr hashes"
    and "getSiteTar m w = Inr r"
    and "ListItem obj \<in> set (listing w)"
    and "MD5 obj = None"
    and "\<forall>obj'. ListItem obj' \<in> set (listing w) \<and> Key obj' = Key obj \<longrightarrow> MD5 obj' = None"
    and "NextHeader header (Inr data) \<in> set r"
    and "Name header = Key obj"
    and "Typeflag header = TypeReg"
    and "Name header \<notin> IgnoredFiles"
  shows "hashes (Key obj) = None \<and>
         EvWriteAll (Key obj) data (writer_options L (Key obj)) \<in> set (trace s)"
proof -
  from assms(2,6) have none: "hashes (Key obj) = None"
    using list_loop_unlisted [of "listing w" Map.empty hashes "Key obj"] by simp
  with assms(8-10) have "wants_upload L hashes header data"
    by (simp add: wants_upload_def)
  with assms(1-3,7)
  have "EvWriteAll (Name header) data (writer_options L (Name header)) \<in> set (trace s)"
    by (rule Run_uploads)
  with assms(8) have "EvWriteAll (Key obj) data (writer_options L (Key obj)) \<in> set (trace s)"
    by simp
  with none show ?thesis by simp
qed

theorem C6_witness:
  "stored unhashed_site ''readme.md'' = Some (''hi'', None) \<and>
   fst (Run example_lib example_mirror unhashed_site) = Returned None \<and>
   EvWriteAll ''readme.md'' ''hi'' (writer_options example_lib ''readme.md'')
     \<in> set (trace (snd (Run example_lib example_mirror unhashed_site)))"
  using
    C6_object_without_md5_reuploaded
      [where L = example_lib and m = example_mirror and w = unhashed_site
         and s = "snd (Run example_lib example_mirror unhashed_site)"
         and obj = "\<lparr>Key = ''readme.md'', MD5 = None\<rparr>"
         and header = "\<lparr>Name = ''readme.md'', Typeflag = TypeReg\<rparr>" and data = "''hi''",
       OF _ unhashed_site_facts(1,2)]
    unhashed_site_run
  by (simp add: unhashed_site_facts regular_def IgnoredFiles_def prod_eq_iff)

subsection \<open>C7\<close>

text \<open>
  Claim C7. Every \<^verbatim>\<open>WriteAll\<close> call of a run carries the writer options derived from
  \<^verbatim>\<open>mime.TypeByExtension(path.Ext(name))\<close>: for \<^verbatim>\<open>style.css\<close> the content type the
  host registers for \<^verbatim>\<open>.css\<close>, when it registers one, and nil options when the
  extension has no registered type.
\<close>

theorem C7_content_type_from_extension:
  assumes "EvWriteAll k d opts \<in> set (trace (snd (Run L m w)))"
  shows "(k = ''style.css'' \<and> TypeByExtension L ''.css'' \<noteq> [] \<longrightarrow>
            opts = Some \<lparr>ContentType = TypeByExtension L ''.css''\<rparr>) \<and>
         (TypeByExtension L (path_Ext k) \<noteq> [] \<longrightarrow>
            opts = Some \<lparr>ContentType = TypeByExtension L (path_Ext k)\<rparr>) \<and>
         (TypeByExtension L (path_Ext k) = [] \<longrightarrow> opts = None)"
proof -
  have "is_write (EvWriteAll k d opts)" by simp
  with assms obtain hashes r where "EvWriteAll k d opts \<in> set (expected_writes L hashes r)"
    by (rule Run_writes)
  then have opts: "opts = writer_options L k"
    unfolding expected_writes_iff by auto
  have "path_Ext ''style.css'' = ''.css''"
    by (simp add: path_Ext_def)
  with opts show ?thesis
    by (auto simp: writer_options_def Let_def)
qed

theorem C7_witness:
  "EvWriteAll ''style.css'' ''body { }'' (Some \<lparr>ContentType = ''text/css; charset=utf-8''\<rparr>)
     \<in> set (trace (snd (Run example_lib example_mirror styled_site))) \<and>
   TypeByExtension example_lib ''.css'' = ''text/css; charset=utf-8'' \<and>
   EvWriteAll ''LICENSE'' ''MIT'' None
     \<in> set (trace (snd (Run example_lib example_mirror styled_site))) \<and>
   TypeByExtension example_lib (path_Ext ''LICENSE'') = []"
  using
    C7_content_type_from_extension
      [where L = example_lib and m = example_mirror and w = styled_site
         and k = "''style.css''" and d = "''body { }''"
         and opts = "Some \<lparr>ContentType = ''text/css; charset=utf-8''\<rparr>"]
    C7_content_type_from_extension
      [where L = example_lib and m = example_mirror and w = styled_site
         and k = "''LICENSE''" and d = "''MIT''" and opts = None]
  by (simp add: styled_site_run example_lib_simps example_mime_def path_Ext_def)

subsection \<open>C8\<close>

text \<open>
  Claim C8. The ways \<^verbatim>\<open>Run\<close> ends, read off the world. If the bucket does not open,
  \<^verbatim>\<open>Run\<close> returns \<^verbatim>\<open>open bucket: ...\<close> and nothing else has happened. If the bucket opens
  and the listing iterator delivers an error other than end-of-stream, the process exits
  with status 1 at once: the error is logged, the handle is still open, the bucket is
  untouched, and nothing is read or written. Otherwise the handle is closed and \<^verbatim>\<open>Run\<close>
  returns: \<^verbatim>\<open>get site tar: get git stdout: ...\<close> when the output pipe of git fails,
  \<^verbatim>\<open>get site tar: start git: ...\<close> when git does not start, and else the error of the first
  failing archive event (\<^verbatim>\<open>get next file in tar: ...\<close>, \<^verbatim>\<open>read file "name": ...\<close> or
  \<^verbatim>\<open>upload file: ...\<close>), nil when there is none, with no \<^verbatim>\<open>WriteAll\<close> call after that
  event.
\<close>

theorem C8_listing_failure_exits:
  "(case OpenBucket_err w (bucketURL m) of
      Some err \<Rightarrow>
        Run L m w = (Returned (Some (''open bucket: '' @ err)), setenv_state m w)
    | None \<Rightarrow>
        (case first_list_error (listing w) of
           Some err \<Rightarrow>
             Run L m w =
               (Exited 1, (setenv_state m w)\<lparr>handle := Opened, trace := [EvLog err]\<rparr>)
         | None \<Rightarrow>
             handle (snd (Run L m w)) = Closed \<and>
             (case StdoutPipe_err w (git_cmd m) of
                Some err \<Rightarrow>
                  Run L m w =
                    (Returned (Some (''get site tar: get git stdout: '' @ err)),
                     (setenv_state m w)\<lparr>handle := Closed\<rparr>)
              | None \<Rightarrow>
                  (case Start_err w (git_cmd m) of
                     Some err \<Rightarrow>
                       Run L m w =
                         (Returned (Some (''get site tar: start git: '' @ err)),
                          (setenv_state m w)\<lparr>handle := Closed\<rparr>)
                   | None \<Rightarrow>
                       (\<exists>hashes. list_loop (listing w) Map.empty = Inr hashes \<and>
                          fst (Run L m w) =
                            Returned (first_error L w hashes (stdout w (git_cmd m))) \<and>
                          filter is_write (trace (snd (Run L m w))) =
                            expected_writes L hashes
                              (until_error L w hashes (stdout w (git_cmd m))))))))"
proof (cases "OpenBucket_err w (bucketURL m)")
  case (Some err)
  then show ?thesis by (simp add: Run_open_failed)
next
  case opened: None
  show ?thesis
  proof (cases "first_list_error (listing w)")
    case (Some err)
    then have "list_loop (listing w) Map.empty = Inl err" by (rule list_loop_error)
    with opened Some show ?thesis
      by (simp add: Run_list_failed opened_state_def emit_def setenv_state_def)
  next
    case listed: None
    then obtain hashes where hashes: "list_loop (listing w) Map.empty = Inr hashes"
      using list_loop_done by blast
    show ?thesis
    proof (cases "StdoutPipe_err w (git_cmd m)")
      case (Some err)
      then have "getSiteTar m w = Inl (''get git stdout: '' @ err)"
        by (simp add: getSiteTar_def)
      with opened listed hashes Some show ?thesis
        by (simp add: Run_tar_failed opened_state_def)
    next
      case piped: None
      show ?thesis
      proof (cases "Start_err w (git_cmd m)")
        case (Some err)
        with piped have "getSiteTar m w = Inl (''start git: '' @ err)"
          by (simp add: getSiteTar_def)
        with opened listed hashes piped Some show ?thesis
          by (simp add: Run_tar_failed opened_state_def)
      next
        case started: None
        let ?r = "stdout w (git_cmd m)"
        from piped started have tar: "getSiteTar m w = Inr ?r"
          by (simp add: getSiteTar_def)
        obtain evs where evs:
          "trace (snd (tar_loop L w hashes ?r (opened_state m w))) =
             trace (opened_state m w) @ evs"
          "filter is_write evs = expected_writes L hashes (until_error L w hashes ?r)"
          using tar_loop_until_error [of L w hashes ?r "opened_state m w"]
          by (elim exE conjE)
        from evs have "filter is_write (trace (snd (Run L m w))) =
            expected_writes L hashes (until_error L w hashes ?r)"
          using opened hashes tar
          by (simp add: Run_loop opened_state_def setenv_state_def)
        with opened listed hashes piped started tar show ?thesis
          by (simp add: Run_loop tar_loop_error)
      qed
    qed
  qed
qed

theorem C8_witness:
  "fst (Run example_lib example_mirror unlistable_site) = Exited 1 \<and>
   handle (snd (Run example_lib example_mirror unlistable_site)) = Opened \<and>
   trace (snd (Run example_lib example_mirror unlistable_site)) = [EvLog ''connection reset''] \<and>
   objects (snd (Run example_lib example_mirror unlistable_site)) = stored unlistable_site \<and>
   fst (Run example_lib example_mirror unopenable_site) =
     Returned (Some ''open bucket: no such bucket'') \<and>
   handle (snd (Run example_lib example_mirror unopenable_site)) = NotOpened \<and>
   Run example_lib example_mirror pipeless_site =
     (Returned (Some ''get site tar: get git stdout: exec: Stdout already set''),
      (setenv_state example_mirror pipeless_site)\<lparr>handle := Closed\<rparr>) \<and>
   Run example_lib example_mirror gitless_site =
     (Returned (Some
        ''get site tar: start git: fork/exec /usr/bin/git: no such file or directory''),
      (setenv_state example_mirror gitless_site)\<lparr>handle := Closed\<rparr>) \<and>
   fst (Run example_lib example_mirror truncated_site) =
     Returned (Some ''get next file in tar: unexpected EOF'') \<and>
   filter is_write (trace (snd (Run example_lib example_mirror truncated_site))) =
     [EvWriteAll ''a.txt'' ''same'' None] \<and>
   fst (Run example_lib example_mirror unreadable_site) =
     Returned (Some (''read file '' @ [CHR 0x22] @ ''a.txt'' @ [CHR 0x22] @ '': unexpected EOF'')) \<and>
   filter is_write (trace (snd (Run example_lib example_mirror unreadable_site))) = [] \<and>
   fst (Run example_lib example_mirror readonly_site) =
     Returned (Some ''upload file: access denied'') \<and>
   handle (snd (Run example_lib example_mirror readonly_site)) = Closed"
  using
    C8_listing_failure_exits [where w = unlistable_site and m = example_mirror and L = example_lib]
    C8_listing_failure_exits [where w = unopenable_site and m = example_mirror and L = example_lib]
    C8_listing_failure_exits [where w = pipeless_site and m = example_mirror and L = example_lib]
    C8_listing_failure_exits [where w = gitless_site and m = example_mirror and L = example_lib]
    C8_listing_failure_exits [where w = truncated_site and m = example_mirror and L = example_lib]
    C8_listing_failure_exits [where w = unreadable_site and m = example_mirror and L = example_lib]
    C8_listing_failure_exits [where w = readonly_site and m = example_mirror and L = example_lib]
  by (simp add: failing_site_facts failing_loop_facts first_error_simps expected_writes_def
        regular_def wants_upload_def IgnoredFiles_def setenv_state_def example_lib_simps
        writer_options_def path_Ext_def example_mime_def)

subsection \<open>C9\<close>

text \<open>
  Claim C9. A run leaves every object whose key is not the name of an archive entry as
  it was, removes no object at all, and calls \<^verbatim>\<open>WriteAll\<close> only under names of
  archive entries.
\<close>

theorem C9_upload_only:
  "(\<forall>k. k \<notin> local_names m w \<longrightarrow> objects (snd (Run L m w)) k = stored w k) \<and>
   (\<forall>k. stored w k \<noteq> None \<longrightarrow> objects (snd (Run L m w)) k \<noteq> None) \<and>
   (\<forall>e\<in>set (trace (snd (Run L m w))). is_write e \<longrightarrow> (\<exists>k\<in>local_names m w. is_write_to k e))"
proof (intro conjI allI impI ballI)
  fix k assume "k \<notin> local_names m w"
  then show "objects (snd (Run L m w)) k = stored w k" by (rule Run_objects_other)
next
  fix k assume "stored w k \<noteq> None"
  then show "objects (snd (Run L m w)) k \<noteq> None" by (rule Run_objects_dom)
next
  fix e assume "e \<in> set (trace (snd (Run L m w)))" "is_write e"
  then obtain hashes r where tar: "getSiteTar m w = Inr r"
    and "e \<in> set (expected_writes L hashes r)"
    by (rule Run_writes)
  then obtain h d where "NextHeader h (Inr d) \<in> set r"
    "e = EvWriteAll (Name h) d (writer_options L (Name h))"
    unfolding expected_writes_iff by blast
  with tar in_tar_names [of h "Inr d" r] show "\<exists>k\<in>local_names m w. is_write_to k e"
    by (auto simp: local_names_def)
qed

theorem C9_witness:
  "''removed.html'' \<notin> local_names example_mirror stale_site \<and>
   objects (snd (Run example_lib example_mirror stale_site)) ''removed.html'' =
     Some (''old'', None)"
  using C9_upload_only [where m = example_mirror and w = stale_site and L = example_lib]
  by (simp add: local_names_def stale_site_def example_lists regular_def example_world_def
        getSiteTar_def)

subsection \<open>C10\<close>

text \<open>
  Claim C10. The ignore set is matched against the whole entry name: its only member is
  \<^verbatim>\<open>.gitignore\<close>, so a regular entry named \<^verbatim>\<open>docs/.gitignore\<close> is not ignored, and
  a run that returns nil writes it under that key unless the index records its checksum.
\<close>

theorem C10_ignore_is_exact_match:
  assumes "Run L m w = (Returned None, s)"
    and "list_loop (listing w) Map.empty = Inr hashes"
    and "getSiteTar m w = Inr r"
    and "NextHeader header (Inr data) \<in> set r"
    and "Name header = ''docs/.gitignore''"
    and "Typeflag header = TypeReg"
    and "hashes ''docs/.gitignore'' \<noteq> Some (md5_Sum L data)"
  shows "(\<forall>name. name \<in> IgnoredFiles \<longleftrightarrow> name = ''.gitignore'') \<and>
         EvWriteAll ''docs/.gitignore'' data (writer_options L ''docs/.gitignore'')
           \<in> set (trace s)"
proof -
  have exact: "\<forall>name. name \<in> IgnoredFiles \<longleftrightarrow> name = ''.gitignore''"
    by (simp add: IgnoredFiles_def)
  with assms(5-7) have "wants_upload L hashes header data"
    by (simp add: wants_upload_def)
  with assms(1-4)
  have "EvWriteAll (Name header) data (writer_options L (Name header)) \<in> set (trace s)"
    by (rule Run_uploads)
  with assms(5) have "EvWriteAll ''docs/.gitignore'' data (writer_options L ''docs/.gitignore'')
      \<in> set (trace s)"
    by simp
  with exact show ?thesis by simp
qed

theorem C10_witness:
  "fst (Run example_lib example_mirror nested_site) = Returned None \<and>
   EvWriteAll ''docs/.gitignore'' ''*.o'' (writer_options example_lib ''docs/.gitignore'')
     \<in> set (trace (snd (Run example_lib example_mirror nested_site)))"
  using
    C10_ignore_is_exact_match
      [where L = example_lib and m = example_mirror and w = nested_site
         and s = "snd (Run example_lib example_mirror nested_site)"
         and header = "\<lparr>Name = ''docs/.gitignore'', Typeflag = TypeReg\<rparr>"
         and data = "''*.o''",
       OF _ nested_site_facts]
    nested_site_run
  by (simp add: regular_def prod_eq_iff)

end
